theory Spec2Isabelle
  imports Main "HOL-Library.Word"
begin

section \<open>The live builder of client/components/pipelines/pipeline-form.tsx\<close>

text \<open>
  The file holds two React components. \<open>PipelineForm\<close> collects a parsed CSV and a prompt
  and hands them to its \<open>onSubmit\<close> callback. \<open>LiveBuilderModal\<close> shows one synthesis run:
  it keeps a builder state in a reducer, starts timers that walk the displayed phase
  forward while the call to \<open>createAndRunPipeline\<close> is pending, and writes the outcome of
  that call into the state.

  The types \<open>PipelineSpec\<close>, \<open>ParsedCSV\<close> and the element type of
  \<open>report.validation_errors\<close> come from \<open>@/lib/types\<close>, which is not part of the sources
  at hand; they are type parameters \<open>'s\<close>, \<open>'c\<close> and \<open>'e\<close>. A value that may be \<open>null\<close> is
  an \<open>option\<close>.
\<close>

subsection \<open>PipelineForm\<close>

text \<open>
  Strings that the code inspects (\<open>prompt.trim()\<close>) are lists of UTF-16 code units; the
  prompt and the CSV content have this type throughout. Identifiers, messages and time
  stamps are only stored and passed on, and are plain strings.
\<close>

type_synonym jsstring = "16 word list"

text \<open>
  \<open>String.prototype.trim\<close> of ECMAScript removes, at both ends, the code units that are
  \<open>WhiteSpace\<close> or \<open>LineTerminator\<close>: tab, line feed, vertical tab, form feed, carriage
  return, space, no-break space, the Unicode space separators, line and paragraph
  separator, and the byte order mark. All of them lie in the basic plane, so the test is
  one on code units.
\<close>

definition isWhiteSpace :: "16 word \<Rightarrow> bool" where
  "isWhiteSpace c =
     (c \<in> {0x0009, 0x000A, 0x000B, 0x000C, 0x000D, 0x0020, 0x00A0, 0x1680,
            0x2028, 0x2029, 0x202F, 0x205F, 0x3000, 0xFEFF}
      \<or> (0x2000 \<le> c \<and> c \<le> 0x200A))"

definition trim :: "jsstring \<Rightarrow> jsstring" where
  "trim s = rev (dropWhile isWhiteSpace (rev (dropWhile isWhiteSpace s)))"

text \<open>The hooks of \<open>PipelineForm\<close> that \<open>handleSubmit\<close> reads.\<close>

record 'c FormState =
  parsedData :: "'c option"
  rawContent :: jsstring
  prompt :: jsstring

text \<open>The object passed to \<open>onSubmit\<close>, with its keys \<open>prompt\<close>, \<open>csvContent\<close>, \<open>parsedData\<close>.\<close>

record 'c Submission =
  submitted_prompt :: jsstring
  submitted_csvContent :: jsstring
  submitted_parsedData :: 'c

text \<open>
  \<open>handleSubmit\<close>: \<open>None\<close> when it returns without calling \<open>onSubmit\<close>, otherwise the
  argument of the one call. The empty string is the only falsy string.
\<close>

definition handleSubmit :: "'c FormState \<Rightarrow> 'c Submission option" where
  "handleSubmit f =
     (case parsedData f of
        None \<Rightarrow> None
      | Some data \<Rightarrow>
          if trim (prompt f) = [] then None
          else Some \<lparr>submitted_prompt = trim (prompt f),
                     submitted_csvContent = rawContent f,
                     submitted_parsedData = data\<rparr>)"

text \<open>
  The button \<open>Build Pipeline\<close> is disabled while the trimmed prompt is empty or a
  submission is under way; a click on an enabled button runs \<open>handleSubmit\<close>.
\<close>

definition buildButton_disabled :: "'c FormState \<Rightarrow> bool \<Rightarrow> bool" where
  "buildButton_disabled f isSubmitting = (trim (prompt f) = [] \<or> isSubmitting)"

definition buildButton_click :: "'c FormState \<Rightarrow> bool \<Rightarrow> 'c Submission option" where
  "buildButton_click f isSubmitting =
     (if buildButton_disabled f isSubmitting then None else handleSubmit f)"

subsection \<open>LiveBuilderModal: builder state, actions and the reducer\<close>

datatype AgentPhase =
  Analyzing | Generating | Validating | Executing | Evaluating | Complete | Failed

datatype FinalStatus = Success | StatusFailed

text \<open>
  A value that may be \<open>undefined\<close>. \<open>Partial<LiveBuilderState>\<close> admits a key that is
  present with the value \<open>undefined\<close>, and the spread in the reducer copies such a key
  like any other, so every field of the state can come to hold \<open>undefined\<close>.
\<close>

datatype 'a jsval = Undefined | Defined 'a

text \<open>One entry of the validation feed, as \<open>runPipeline\<close> builds it.\<close>

record 'e ValidationEntry =
  iteration :: int
  errors :: "'e list"
  timestamp :: string
  fixed :: bool

text \<open>\<open>interface State extends LiveBuilderState\<close>, with the fields \<open>getInitialState\<close> lists.\<close>

record ('s, 'e) State =
  runId :: "string jsval"
  phase :: "AgentPhase jsval"
  currentIteration :: "int jsval"
  maxIterations :: "int jsval"
  currentSpec :: "'s option jsval"
  validationErrors :: "'e ValidationEntry list jsval"
  isComplete :: "bool jsval"
  finalStatus :: "FinalStatus option jsval"
  previousSpec :: "'s option jsval"

text \<open>
  The payload of an \<open>UPDATE\<close>. A key is absent (\<open>None\<close>) or present with a value, which
  may be \<open>undefined\<close>: for \<open>currentSpec\<close>, \<open>Some Undefined\<close> is the key with the value
  \<open>undefined\<close>, \<open>Some (Defined None)\<close> the key with \<open>null\<close>. The payload of the reset on
  close is a whole \<open>State\<close>, so at run time a payload can also carry \<open>previousSpec\<close>;
  \<open>p_previousSpec\<close> is that key.
\<close>

record ('s, 'e) Payload =
  p_runId :: "string jsval option"
  p_phase :: "AgentPhase jsval option"
  p_currentIteration :: "int jsval option"
  p_maxIterations :: "int jsval option"
  p_currentSpec :: "'s option jsval option"
  p_validationErrors :: "'e ValidationEntry list jsval option"
  p_isComplete :: "bool jsval option"
  p_finalStatus :: "FinalStatus option jsval option"
  p_previousSpec :: "'s option jsval option"

datatype ('s, 'e) Action =
  UPDATE "('s, 'e) Payload"
| SET_PREVIOUS_SPEC "'s option"

text \<open>The object literal \<open>{}\<close>: no key present.\<close>

definition no_keys :: "('s, 'e) Payload" where
  "no_keys =
     \<lparr>p_runId = None, p_phase = None, p_currentIteration = None, p_maxIterations = None,
      p_currentSpec = None, p_validationErrors = None, p_isComplete = None,
      p_finalStatus = None, p_previousSpec = None\<rparr>"

text \<open>
  \<open>{...state, ...payload}\<close> for one key: the payload's value when the key is present, be
  the value \<open>undefined\<close>.
\<close>

definition spread :: "'a jsval \<Rightarrow> 'a jsval option \<Rightarrow> 'a jsval" where
  "spread old new = (case new of None \<Rightarrow> old | Some v \<Rightarrow> v)"

text \<open>Reading a key of the payload: an absent key reads as \<open>undefined\<close>.\<close>

definition read_key :: "'a jsval option \<Rightarrow> 'a jsval" where
  "read_key k = (case k of None \<Rightarrow> Undefined | Some v \<Rightarrow> v)"

text \<open>
  \<open>reducer\<close>. In the \<open>UPDATE\<close> case the key \<open>previousSpec\<close> is written after both spreads,
  so whatever the payload carries under that key is overwritten.
\<close>

fun reducer :: "('s, 'e) State \<Rightarrow> ('s, 'e) Action \<Rightarrow> ('s, 'e) State" where
  "reducer state (UPDATE payload) =
     \<lparr>runId = spread (runId state) (p_runId payload),
      phase = spread (phase state) (p_phase payload),
      currentIteration = spread (currentIteration state) (p_currentIteration payload),
      maxIterations = spread (maxIterations state) (p_maxIterations payload),
      currentSpec = spread (currentSpec state) (p_currentSpec payload),
      validationErrors = spread (validationErrors state) (p_validationErrors payload),
      isComplete = spread (isComplete state) (p_isComplete payload),
      finalStatus = spread (finalStatus state) (p_finalStatus payload),
      previousSpec =
        (if read_key (p_currentSpec payload) \<noteq> Undefined then currentSpec state
         else previousSpec state)\<rparr>"
| "reducer state (SET_PREVIOUS_SPEC payload) = state\<lparr>previousSpec := Defined payload\<rparr>"

definition getInitialState :: "string \<Rightarrow> ('s, 'e) State" where
  "getInitialState rid =
     \<lparr>runId = Defined rid, phase = Defined Analyzing, currentIteration = Defined 0,
      maxIterations = Defined 3, currentSpec = Defined None, validationErrors = Defined [],
      isComplete = Defined False, finalStatus = Defined None, previousSpec = Defined None\<rparr>"

text \<open>A whole state used as a payload: every key present.\<close>

definition as_payload :: "('s, 'e) State \<Rightarrow> ('s, 'e) Payload" where
  "as_payload st =
     \<lparr>p_runId = Some (runId st), p_phase = Some (phase st),
      p_currentIteration = Some (currentIteration st),
      p_maxIterations = Some (maxIterations st),
      p_currentSpec = Some (currentSpec st),
      p_validationErrors = Some (validationErrors st),
      p_isComplete = Some (isComplete st),
      p_finalStatus = Some (finalStatus st),
      p_previousSpec = Some (previousSpec st)\<rparr>"

subsection \<open>The modal: component state, timers and calls\<close>

text \<open>What \<open>createAndRunPipeline\<close> resolves to, as far as \<open>LiveBuilderModal\<close> reads it.\<close>

record ('s, 'e) Report =
  pipeline_spec :: "'s option"
  fix_iterations :: int
  validation_errors :: "'e list"

record ('s, 'e) CreatePipelineResponse =
  run_id :: string
  pipeline_id :: string
  report :: "('s, 'e) Report"

text \<open>The argument of \<open>createAndRunPipeline\<close>.\<close>

record Request =
  req_prompt :: jsstring
  req_format :: string
  content_base64 :: jsstring
  max_fix_iters :: int

text \<open>
  A value caught by \<open>catch (err)\<close>: an instance of \<open>Error\<close> with its message, or anything
  else.
\<close>

datatype Thrown = ErrorInstance string | OtherValue

text \<open>
  One invocation of \<open>runPipeline\<close>. Each invocation has its own array of timers and
  awaits its own call: \<open>call\<close> is the argument of \<open>createAndRunPipeline\<close>, \<open>settled\<close>
  tells whether the promise has resolved or rejected, and \<open>timeouts\<close> are the timers of
  \<open>simulatePhases\<close> that have neither fired nor been cleared, in firing order.
\<close>

record Flight =
  call :: Request
  settled :: bool
  timeouts :: "(AgentPhase \<times> nat) list"

text \<open>
  The modal. \<open>state\<close>, \<open>apiResponse\<close> and \<open>error\<close> are the hooks' values;
  \<open>abortController\<close> is the ref (\<open>None\<close> for \<open>null\<close>, otherwise the \<open>aborted\<close> flag of
  the controller it holds) and \<open>hasStarted\<close> the second ref. \<open>flights\<close> are the
  invocations of \<open>runPipeline\<close> so far, the oldest first: nothing in the component ends
  an invocation before its call settles, so several can be under way at once.
  \<open>onCancelCalls\<close> and \<open>onCompleteCalls\<close> record what was passed to the two callbacks.
\<close>

record ('s, 'e) Modal =
  state :: "('s, 'e) State"
  apiResponse :: "('s, 'e) CreatePipelineResponse option"
  error :: "string option"
  abortController :: "bool option"
  hasStarted :: bool
  flights :: "Flight list"
  onCancelCalls :: nat
  onCompleteCalls :: "(string \<times> string \<times> ('s, 'e) CreatePipelineResponse) list"

definition dispatch :: "('s, 'e) Action \<Rightarrow> ('s, 'e) Modal \<Rightarrow> ('s, 'e) Modal" where
  "dispatch action m = m\<lparr>state := reducer (state m) action\<rparr>"

text \<open>The array \<open>phases\<close> of \<open>simulatePhases\<close>: phase and delay in milliseconds.\<close>

definition phases :: "(AgentPhase \<times> nat) list" where
  "phases =
     [(Analyzing, 0), (Generating, 1500), (Validating, 4000), (Executing, 6000),
      (Evaluating, 8000)]"

text \<open>
  \<open>simulatePhases\<close> sets one timer per entry of \<open>phases\<close>; the function it returns,
  \<open>cleanupPhases\<close>, clears the timers of the same invocation.
\<close>

definition simulatePhases :: "Flight \<Rightarrow> Flight" where
  "simulatePhases f = f\<lparr>timeouts := phases\<rparr>"

definition cleanupPhases :: "Flight \<Rightarrow> Flight" where
  "cleanupPhases f = f\<lparr>timeouts := []\<rparr>"

text \<open>
  The next timer of invocation \<open>k\<close> fires: its callback dispatches the phase. Within an
  invocation the timers fire in the order of their delays; between invocations any order
  is allowed.
\<close>

definition fireTimeout :: "nat \<Rightarrow> ('s, 'e) Modal \<Rightarrow> ('s, 'e) Modal" where
  "fireTimeout k m =
     (if k < length (flights m) then
        (case timeouts (flights m ! k) of
           [] \<Rightarrow> m
         | (ph, delay) # rest \<Rightarrow>
             dispatch (UPDATE (no_keys\<lparr>p_phase := Some (Defined ph)\<rparr>))
               (m\<lparr>flights := (flights m)[k := (flights m ! k)\<lparr>timeouts := rest\<rparr>]\<rparr>))
      else m)"

text \<open>
  \<open>runPipeline\<close> up to its \<open>await\<close>: a new controller replaces the one in the ref, the
  timers are set and the call is sent. The signal of the controller is passed to nothing.
\<close>

definition runPipeline_start ::
  "jsstring \<Rightarrow> jsstring \<Rightarrow> ('s, 'e) Modal \<Rightarrow> ('s, 'e) Modal" where
  "runPipeline_start prompt' csvBase64 m =
     m\<lparr>abortController := Some False,
       flights :=
         flights m @
         [simulatePhases
            \<lparr>call = \<lparr>req_prompt = prompt', req_format = ''csv'',
                     content_base64 = csvBase64, max_fix_iters = 3\<rparr>,
             settled = False, timeouts = []\<rparr>]\<rparr>"

text \<open>The payloads of the two final dispatches. \<open>now\<close> is \<open>new Date().toISOString()\<close>.\<close>

definition success_payload ::
  "('s, 'e) CreatePipelineResponse \<Rightarrow> string \<Rightarrow> ('s, 'e) Payload" where
  "success_payload response now =
     no_keys
       \<lparr>p_runId := Some (Defined (run_id response)),
        p_currentSpec := Some (Defined (pipeline_spec (report response))),
        p_currentIteration := Some (Defined (fix_iterations (report response))),
        p_phase := Some (Defined Complete),
        p_isComplete := Some (Defined True),
        p_finalStatus := Some (Defined (Some Success)),
        p_validationErrors :=
          Some (Defined
            (if length (validation_errors (report response)) > 0
             then [\<lparr>iteration = fix_iterations (report response),
                    errors = validation_errors (report response),
                    timestamp = now, fixed = True\<rparr>]
             else []))\<rparr>"

definition failed_payload :: "('s, 'e) Payload" where
  "failed_payload =
     no_keys
       \<lparr>p_phase := Some (Defined Failed), p_isComplete := Some (Defined True),
        p_finalStatus := Some (Defined (Some StatusFailed))\<rparr>"

text \<open>The statements of the \<open>try\<close> block after the \<open>await\<close>, and the \<open>catch\<close> block.\<close>

definition try_block ::
  "('s, 'e) CreatePipelineResponse \<Rightarrow> string \<Rightarrow> ('s, 'e) Modal \<Rightarrow> ('s, 'e) Modal" where
  "try_block response now m =
     dispatch (UPDATE (success_payload response now)) (m\<lparr>apiResponse := Some response\<rparr>)"

definition catch_block :: "Thrown \<Rightarrow> ('s, 'e) Modal \<Rightarrow> ('s, 'e) Modal" where
  "catch_block err m =
     dispatch (UPDATE failed_payload)
       (m\<lparr>error :=
            Some (case err of
                    ErrorInstance msg \<Rightarrow> msg
                  | OtherValue \<Rightarrow> ''Pipeline creation failed'')\<rparr>)"

text \<open>
  Invocation \<open>k\<close> of \<open>runPipeline\<close> from the moment its call settles: \<open>Inl\<close> is a
  rejection with the value thrown, \<open>Inr\<close> a response together with the time at which it
  is handled. Whatever the call threw is caught; \<open>finally\<close> clears the timers of this
  invocation, and of no other. The result is a modal in both cases: nothing is thrown on.
\<close>

definition runPipeline_settle ::
  "nat \<Rightarrow> Thrown + ('s, 'e) CreatePipelineResponse \<times> string \<Rightarrow> ('s, 'e) Modal
     \<Rightarrow> ('s, 'e) Modal" where
  "runPipeline_settle k outcome m =
     (case outcome of
        Inr (response, now) \<Rightarrow> try_block response now m
      | Inl err \<Rightarrow> catch_block err m)
     \<lparr>flights := (flights m)[k := cleanupPhases ((flights m ! k)\<lparr>settled := True\<rparr>)]\<rparr>"

text \<open>\<open>abortControllerRef.current.abort()\<close>, if there is a controller.\<close>

definition abort :: "('s, 'e) Modal \<Rightarrow> ('s, 'e) Modal" where
  "abort m = m\<lparr>abortController := map_option (\<lambda>_. True) (abortController m)\<rparr>"

definition handleCancel :: "('s, 'e) Modal \<Rightarrow> ('s, 'e) Modal" where
  "handleCancel m = (abort m)\<lparr>onCancelCalls := Suc (onCancelCalls m)\<rparr>"

definition handleViewResults :: "('s, 'e) Modal \<Rightarrow> ('s, 'e) Modal" where
  "handleViewResults m =
     (case apiResponse m of
        None \<Rightarrow> m
      | Some r \<Rightarrow> m\<lparr>onCompleteCalls := onCompleteCalls m @ [(run_id r, pipeline_id r, r)]\<rparr>)"

text \<open>The constant \<open>isComplete\<close> computed while rendering.\<close>

definition render_isComplete :: "('s, 'e) Modal \<Rightarrow> bool" where
  "render_isComplete m =
     (phase (state m) = Defined Complete \<or> phase (state m) = Defined Failed)"

text \<open>
  The two effects. The first starts a run when the modal is open and the ref says that
  none has been started; the second resets when the modal is not open.
\<close>

definition effect_run ::
  "bool \<Rightarrow> jsstring \<Rightarrow> jsstring \<Rightarrow> ('s, 'e) Modal \<Rightarrow> ('s, 'e) Modal" where
  "effect_run isOpen prompt' csvBase64 m =
     (if \<not> isOpen \<or> hasStarted m then m
      else runPipeline_start prompt' csvBase64 (m\<lparr>hasStarted := True\<rparr>))"

definition effect_reset :: "bool \<Rightarrow> ('s, 'e) Modal \<Rightarrow> ('s, 'e) Modal" where
  "effect_reset isOpen m =
     (if \<not> isOpen
      then dispatch (UPDATE (as_payload (getInitialState ''pending'')))
             (m\<lparr>hasStarted := False, apiResponse := None, error := None\<rparr>)
      else m)"

text \<open>The component as \<open>useReducer\<close>, \<open>useState\<close> and \<open>useRef\<close> create it.\<close>

definition mounted :: "('s, 'e) Modal" where
  "mounted =
     \<lparr>state = getInitialState ''pending'', apiResponse = None, error = None,
      abortController = None, hasStarted = False, flights = [],
      onCancelCalls = 0, onCompleteCalls = []\<rparr>"

text \<open>
  \<open>isOpen\<close> becomes true: both effects run. \<open>isOpen\<close> becomes false: the cleanup of the
  first effect aborts the controller, then both effects run. Neither touches the timers
  or the call of an invocation under way.
\<close>

definition openModal ::
  "jsstring \<Rightarrow> jsstring \<Rightarrow> ('s, 'e) Modal \<Rightarrow> ('s, 'e) Modal" where
  "openModal prompt' csvBase64 m = effect_reset True (effect_run True prompt' csvBase64 m)"

definition closeModal ::
  "jsstring \<Rightarrow> jsstring \<Rightarrow> ('s, 'e) Modal \<Rightarrow> ('s, 'e) Modal" where
  "closeModal prompt' csvBase64 m =
     effect_reset False (effect_run False prompt' csvBase64 (abort m))"

subsection \<open>What happens to the modal\<close>

text \<open>
  Between the changes of \<open>isOpen\<close>, what happens to the modal is a sequence of events: a
  timer of invocation \<open>k\<close> fires, the call of invocation \<open>k\<close> resolves or rejects, the
  user cancels or asks for the results. A call settles at most once. The button for the
  results is rendered only for a complete, successful state with a response.
\<close>

datatype ('s, 'e) Event =
  TimerFires nat
| ApiResolves nat "('s, 'e) CreatePipelineResponse" string
| ApiRejects nat Thrown
| CancelClicked
| ViewResultsClicked

fun handle :: "('s, 'e) Modal \<Rightarrow> ('s, 'e) Event \<Rightarrow> ('s, 'e) Modal" where
  "handle m (TimerFires k) = fireTimeout k m"
| "handle m (ApiResolves k response now) =
     (if k < length (flights m) \<and> \<not> settled (flights m ! k)
      then runPipeline_settle k (Inr (response, now)) m else m)"
| "handle m (ApiRejects k err) =
     (if k < length (flights m) \<and> \<not> settled (flights m ! k)
      then runPipeline_settle k (Inl err) m else m)"
| "handle m CancelClicked = handleCancel m"
| "handle m ViewResultsClicked =
     (if render_isComplete m \<and> finalStatus (state m) = Defined (Some Success) \<and>
         apiResponse m \<noteq> None
      then handleViewResults m else m)"

text \<open>
  A run: the modal \<open>m0\<close> is opened with a prompt and a CSV, and the events are handled
  one after the other. When the ref of \<open>m0\<close> says that no run has been started, the
  invocation of this run is number \<open>length (flights m0)\<close>.
\<close>

definition run ::
  "('s, 'e) Modal \<Rightarrow> jsstring \<Rightarrow> jsstring \<Rightarrow> ('s, 'e) Event list \<Rightarrow> ('s, 'e) Modal"
  where
  "run m0 prompt' csvBase64 evs = foldl handle (openModal prompt' csvBase64 m0) evs"

text \<open>The calls that have not settled, the oldest first.\<close>

definition pendingCalls :: "('s, 'e) Modal \<Rightarrow> Request list" where
  "pendingCalls m = map call (filter (\<lambda>f. \<not> settled f) (flights m))"

text \<open>An invocation that can do nothing any more: settled, and no timer left.\<close>

definition quiet :: "Flight \<Rightarrow> bool" where
  "quiet f = (settled f \<and> timeouts f = [])"

text \<open>
  A modal in which a run starts undisturbed: the ref says that no run has been started,
  every earlier invocation has settled and has no timer left, and the builder state is
  the initial one, but possibly for the previous specification. The mounted component is
  idle, and so is a modal that was closed after its run had settled.
\<close>

definition idle :: "('s, 'e) Modal \<Rightarrow> bool" where
  "idle m =
     (\<not> hasStarted m \<and> list_all quiet (flights m) \<and>
      apiResponse m = None \<and> error m = None \<and>
      state m = (getInitialState ''pending'')\<lparr>previousSpec := previousSpec (state m)\<rparr>)"

subsection \<open>Notions used to state the properties\<close>

text \<open>
  The outcome of invocation \<open>k\<close>, read off the events: the first event that settles its
  call.
\<close>

fun outcome ::
  "nat \<Rightarrow> ('s, 'e) Event list \<Rightarrow> (Thrown + ('s, 'e) CreatePipelineResponse \<times> string) option"
  where
  "outcome k [] = None"
| "outcome k (ApiResolves i response now # evs) =
     (if i = k then Some (Inr (response, now)) else outcome k evs)"
| "outcome k (ApiRejects i err # evs) = (if i = k then Some (Inl err) else outcome k evs)"
| "outcome k (ev # evs) = outcome k evs"

text \<open>The number of events, handled one after the other, at which \<open>finalStatus\<close> changes.\<close>

fun status_writes :: "('s, 'e) Modal \<Rightarrow> ('s, 'e) Event list \<Rightarrow> nat" where
  "status_writes m [] = 0"
| "status_writes m (ev # evs) =
     (if finalStatus (state (handle m ev)) = finalStatus (state m) then 0 else 1)
     + status_writes (handle m ev) evs"


text \<open>
  The displayed phase and the timers still set, as firing the timers of \<open>ts\<close> one by one
  produces them from the phase \<open>ph\<close>.
\<close>

fun positions ::
  "AgentPhase \<Rightarrow> (AgentPhase \<times> nat) list \<Rightarrow> (AgentPhase \<times> (AgentPhase \<times> nat) list) list" where
  "positions ph [] = [(ph, [])]"
| "positions ph ((q, d) # ts) = (ph, (q, d) # ts) # positions q ts"

definition simulated :: "AgentPhase jsval \<Rightarrow> (AgentPhase \<times> nat) list \<Rightarrow> bool" where
  "simulated p ts =
     (case p of
        Undefined \<Rightarrow> False
      | Defined ph \<Rightarrow> (ph, ts) \<in> set (positions Analyzing phases))"

text \<open>
  What holds of the modal throughout an undisturbed run whose invocation is number \<open>k\<close>.
  The earlier invocations stay settled. While the call is pending the state is the
  initial one but for the phase, which the timers have moved; once the call has settled
  no timer is left and the state shows the response or the failure.
\<close>

definition run_inv :: "nat \<Rightarrow> ('s, 'e) Modal \<Rightarrow> bool" where
  "run_inv k m =
     (length (flights m) = Suc k \<and> list_all quiet (take k (flights m)) \<and>
      maxIterations (state m) = Defined 3 \<and>
      (if \<not> settled (flights m ! k) then
         max_fix_iters (call (flights m ! k)) = 3 \<and>
         simulated (phase (state m)) (timeouts (flights m ! k)) \<and>
         finalStatus (state m) = Defined None \<and> isComplete (state m) = Defined False \<and>
         apiResponse m = None \<and> error m = None \<and>
         validationErrors (state m) = Defined [] \<and> currentIteration (state m) = Defined 0
       else
         timeouts (flights m ! k) = [] \<and> isComplete (state m) = Defined True \<and>
         (case apiResponse m of
            Some r \<Rightarrow>
              error m = None \<and> phase (state m) = Defined Complete \<and>
              finalStatus (state m) = Defined (Some Success) \<and>
              runId (state m) = Defined (run_id r) \<and>
              currentSpec (state m) = Defined (pipeline_spec (report r)) \<and>
              currentIteration (state m) = Defined (fix_iterations (report r)) \<and>
              (validationErrors (state m) = Defined []) = (validation_errors (report r) = [])
          | None \<Rightarrow>
              error m \<noteq> None \<and> phase (state m) = Defined Failed \<and>
              finalStatus (state m) = Defined (Some StatusFailed) \<and>
              validationErrors (state m) = Defined [] \<and>
              currentIteration (state m) = Defined 0)))"

section \<open>Properties\<close>

subsection \<open>The reducer on the payloads that are dispatched\<close>

lemma reducer_phase:
  "reducer s (UPDATE (no_keys\<lparr>p_phase := Some (Defined ph)\<rparr>)) = s\<lparr>phase := Defined ph\<rparr>"
  by (simp add: no_keys_def spread_def read_key_def)

lemma reducer_success:
  "reducer s (UPDATE (success_payload r now)) =
     s\<lparr>runId := Defined (run_id r),
       currentSpec := Defined (pipeline_spec (report r)),
       currentIteration := Defined (fix_iterations (report r)),
       phase := Defined Complete,
       isComplete := Defined True,
       finalStatus := Defined (Some Success),
       validationErrors :=
         Defined
           (if validation_errors (report r) = [] then []
            else [\<lparr>iteration = fix_iterations (report r),
                   errors = validation_errors (report r), timestamp = now, fixed = True\<rparr>]),
       previousSpec := currentSpec s\<rparr>"
  by (simp add: success_payload_def no_keys_def spread_def read_key_def)

lemma reducer_failed:
  "reducer s (UPDATE failed_payload) =
     s\<lparr>phase := Defined Failed, isComplete := Defined True,
       finalStatus := Defined (Some StatusFailed)\<rparr>"
  by (simp add: failed_payload_def no_keys_def spread_def read_key_def)

lemma reducer_reset:
  "reducer s (UPDATE (as_payload (getInitialState rid))) =
     (getInitialState rid)\<lparr>previousSpec := currentSpec s\<rparr>"
  by (simp add: as_payload_def getInitialState_def spread_def read_key_def)

lemmas modal_defs =
  dispatch_def simulatePhases_def cleanupPhases_def fireTimeout_def runPipeline_start_def
  try_block_def catch_block_def runPipeline_settle_def abort_def handleCancel_def
  handleViewResults_def effect_run_def effect_reset_def openModal_def closeModal_def
  mounted_def

subsection \<open>What the handlers do to the state and to the invocations\<close>

lemma fireTimeout_Nil:
  "k < length (flights m) \<Longrightarrow> timeouts (flights m ! k) = [] \<Longrightarrow> fireTimeout k m = m"
  by (simp add: fireTimeout_def)

lemma fireTimeout_range: "\<not> k < length (flights m) \<Longrightarrow> fireTimeout k m = m"
  by (simp add: fireTimeout_def)

lemma fireTimeout_Cons:
  "k < length (flights m) \<Longrightarrow> timeouts (flights m ! k) = (ph, d) # rest \<Longrightarrow>
     fireTimeout k m =
       m\<lparr>state := (state m)\<lparr>phase := Defined ph\<rparr>,
         flights := (flights m)[k := (flights m ! k)\<lparr>timeouts := rest\<rparr>]\<rparr>"
  by (simp add: fireTimeout_def dispatch_def reducer_phase del: reducer.simps)

lemma settle_state:
  "state (runPipeline_settle k out m) =
     (case out of
        Inl err \<Rightarrow> reducer (state m) (UPDATE failed_payload)
      | Inr (r, now) \<Rightarrow> reducer (state m) (UPDATE (success_payload r now)))"
  by (simp add: runPipeline_settle_def try_block_def catch_block_def
      dispatch_def split: sum.splits prod.splits)

lemma settle_flights:
  "flights (runPipeline_settle k out m) =
     (flights m)[k := (flights m ! k)\<lparr>settled := True, timeouts := []\<rparr>]"
  by (simp add: runPipeline_settle_def cleanupPhases_def try_block_def catch_block_def
      dispatch_def split: sum.splits prod.splits)

lemma settle_apiResponse:
  "apiResponse (runPipeline_settle k out m) =
     (case out of Inl err \<Rightarrow> apiResponse m | Inr (r, now) \<Rightarrow> Some r)"
  by (simp add: runPipeline_settle_def try_block_def catch_block_def
      dispatch_def split: sum.splits prod.splits)

lemma settle_error:
  "error (runPipeline_settle k out m) =
     (case out of
        Inl err \<Rightarrow>
          Some (case err of ErrorInstance msg \<Rightarrow> msg | OtherValue \<Rightarrow> ''Pipeline creation failed'')
      | Inr (r, now) \<Rightarrow> error m)"
  by (simp add: runPipeline_settle_def try_block_def catch_block_def
      dispatch_def split: sum.splits prod.splits)

lemma handleCancel_fields:
  "state (handleCancel m) = state m \<and> flights (handleCancel m) = flights m \<and>
   apiResponse (handleCancel m) = apiResponse m \<and> error (handleCancel m) = error m"
  by (simp add: handleCancel_def abort_def)

lemma handleViewResults_fields:
  "state (handleViewResults m) = state m \<and> flights (handleViewResults m) = flights m \<and>
   apiResponse (handleViewResults m) = apiResponse m \<and>
   error (handleViewResults m) = error m"
  by (simp add: handleViewResults_def split: option.splits)

subsection \<open>The invariant of an undisturbed run\<close>

lemma positions_fire:
  "(ph, (q, d) # rest) \<in> set (positions p0 ts) \<Longrightarrow> (q, rest) \<in> set (positions p0 ts)"
proof (induction p0 ts rule: positions.induct)
  case (1 ph0)
  then show ?case by simp
next
  case (2 ph0 q0 d0 ts0)
  then show ?case by (cases rest) auto
qed

lemma simulated_Defined:
  "simulated (Defined ph) ts = ((ph, ts) \<in> set (positions Analyzing phases))"
  by (simp add: simulated_def)

lemma simulatedE:
  "simulated p ts \<Longrightarrow> \<exists>ph. p = Defined ph \<and> (ph, ts) \<in> set (positions Analyzing phases)"
  by (cases p) (simp_all add: simulated_def)

lemma run_inv_same_fields:
  "run_inv k m \<Longrightarrow> state m' = state m \<Longrightarrow> flights m' = flights m \<Longrightarrow>
     apiResponse m' = apiResponse m \<Longrightarrow> error m' = error m \<Longrightarrow> run_inv k m'"
  by (auto simp: run_inv_def split: option.splits if_splits)

lemma idle_mounted: "idle mounted"
  by (simp add: idle_def mounted_def getInitialState_def)

lemma idle_state:
  "idle m \<Longrightarrow>
     phase (state m) = Defined Analyzing \<and> currentIteration (state m) = Defined 0 \<and>
     maxIterations (state m) = Defined 3 \<and> validationErrors (state m) = Defined [] \<and>
     isComplete (state m) = Defined False \<and> finalStatus (state m) = Defined None \<and>
     currentSpec (state m) = Defined None"
proof -
  assume "idle m"
  then have eq: "state m = (getInitialState ''pending'')\<lparr>previousSpec := previousSpec (state m)\<rparr>"
    by (simp add: idle_def)
  show ?thesis by (subst eq, simp add: getInitialState_def)+
qed

lemma open_fields:
  "\<not> hasStarted m0 \<Longrightarrow>
     state (openModal p c m0) = state m0 \<and>
     apiResponse (openModal p c m0) = apiResponse m0 \<and>
     error (openModal p c m0) = error m0 \<and>
     flights (openModal p c m0) =
       flights m0 @
       [\<lparr>call = \<lparr>req_prompt = p, req_format = ''csv'', content_base64 = c,
                 max_fix_iters = 3\<rparr>,
         settled = False, timeouts = phases\<rparr>]"
  by (simp add: openModal_def effect_run_def effect_reset_def runPipeline_start_def
      simulatePhases_def)

lemma run_inv_open: "idle m0 \<Longrightarrow> run_inv (length (flights m0)) (openModal p c m0)"
  using idle_state [of m0]
  by (simp add: idle_def run_inv_def open_fields phases_def simulated_Defined)

lemma quiet_before:
  "run_inv k m \<Longrightarrow> i < k \<Longrightarrow> settled (flights m ! i) \<and> timeouts (flights m ! i) = []"
  by (auto simp: run_inv_def list_all_length quiet_def)

lemma other_flight_noop:
  assumes "run_inv k m" and "i \<noteq> k"
  shows "handle m (TimerFires i) = m" and "handle m (ApiResolves i r now) = m"
    and "handle m (ApiRejects i err) = m"
proof -
  have len: "length (flights m) = Suc k" using assms by (simp add: run_inv_def)
  show "handle m (TimerFires i) = m"
  proof (cases "i < k")
    case True
    then show ?thesis using quiet_before [OF assms(1) True] len
      by (simp add: fireTimeout_Nil)
  next
    case False
    then show ?thesis using assms(2) len by (simp add: fireTimeout_range)
  qed
  show "handle m (ApiResolves i r now) = m"
    using quiet_before [OF assms(1), of i] len assms(2) by (cases "i < k") auto
  show "handle m (ApiRejects i err) = m"
    using quiet_before [OF assms(1), of i] len assms(2) by (cases "i < k") auto
qed

lemma run_inv_fireTimeout: "run_inv k m \<Longrightarrow> run_inv k (fireTimeout k m)"
proof -
  assume inv: "run_inv k m"
  then have len: "k < length (flights m)" by (simp add: run_inv_def)
  show ?thesis
  proof (cases "timeouts (flights m ! k)")
    case Nil
    then show ?thesis using inv len by (simp add: fireTimeout_Nil)
  next
    case (Cons t rest)
    obtain q d where t: "t = (q, d)" by (cases t)
    show ?thesis
      using inv len Cons t
      by (auto simp: run_inv_def fireTimeout_Cons simulated_Defined
          dest!: simulatedE dest: positions_fire)
  qed
qed

lemma run_inv_settle:
  "run_inv k m \<Longrightarrow> \<not> settled (flights m ! k) \<Longrightarrow> run_inv k (runPipeline_settle k out m)"
  by (auto simp: run_inv_def settle_state settle_flights settle_apiResponse settle_error
      reducer_success reducer_failed
      simp del: reducer.simps split: sum.splits option.splits)

lemma run_inv_handle: "run_inv k m \<Longrightarrow> run_inv k (handle m ev)"
proof (cases ev)
  case (TimerFires i)
  assume "run_inv k m"
  then show ?thesis using TimerFires other_flight_noop(1) [of k m i]
    by (cases "i = k") (simp_all add: run_inv_fireTimeout)
next
  case (ApiResolves i r now)
  assume "run_inv k m"
  then show ?thesis using ApiResolves other_flight_noop(2) [of k m i r now]
    by (cases "i = k") (simp_all add: run_inv_settle)
next
  case (ApiRejects i err)
  assume "run_inv k m"
  then show ?thesis using ApiRejects other_flight_noop(3) [of k m i err]
    by (cases "i = k") (simp_all add: run_inv_settle)
next
  case CancelClicked
  assume "run_inv k m"
  then show ?thesis using CancelClicked handleCancel_fields [of m]
    by (simp add: run_inv_same_fields)
next
  case ViewResultsClicked
  assume "run_inv k m"
  then show ?thesis using ViewResultsClicked handleViewResults_fields [of m]
    by (simp add: run_inv_same_fields)
qed

lemma run_inv_foldl: "run_inv k m \<Longrightarrow> run_inv k (foldl handle m evs)"
  by (induction evs arbitrary: m) (simp_all add: run_inv_handle)

lemma run_inv_run: "idle m0 \<Longrightarrow> run_inv (length (flights m0)) (run m0 p c evs)"
  by (simp add: run_def run_inv_foldl run_inv_open)

lemma run_Nil: "run m0 p c [] = openModal p c m0"
  by (simp add: run_def)

lemma run_snoc: "run m0 p c (evs @ [ev]) = handle (run m0 p c evs) ev"
  by (simp add: run_def)

lemma idle_closeModal:
  "run_inv k m \<Longrightarrow> settled (flights m ! k) \<Longrightarrow> idle (closeModal p c m)"
proof -
  assume inv: "run_inv k m" and st: "settled (flights m ! k)"
  have "quiet (flights m ! i)" if "i < length (flights m)" for i
    using that inv st quiet_before [OF inv, of i]
    by (cases "i = k") (auto simp: run_inv_def quiet_def)
  then have "list_all quiet (flights m)" by (simp add: list_all_length)
  then show ?thesis
    by (simp add: idle_def closeModal_def effect_run_def effect_reset_def abort_def
        dispatch_def reducer_reset del: reducer.simps)
qed

subsection \<open>A settled run is not changed by later events\<close>

lemma settled_handle:
  assumes "run_inv k m" and "settled (flights m ! k)"
  shows "state (handle m ev) = state m" and "flights (handle m ev) = flights m"
proof -
  have len: "k < length (flights m)" and ts: "timeouts (flights m ! k) = []"
    using assms by (simp_all add: run_inv_def)
  have "state (handle m ev) = state m \<and> flights (handle m ev) = flights m"
  proof (cases ev)
    case (TimerFires i)
    then show ?thesis using other_flight_noop(1) [OF assms(1), of i] len ts
      by (cases "i = k") (simp_all add: fireTimeout_Nil)
  next
    case (ApiResolves i r now)
    then show ?thesis using other_flight_noop(2) [OF assms(1), of i r now] assms(2)
      by (cases "i = k") simp_all
  next
    case (ApiRejects i err)
    then show ?thesis using other_flight_noop(3) [OF assms(1), of i err] assms(2)
      by (cases "i = k") simp_all
  next
    case CancelClicked
    then show ?thesis by (simp add: handleCancel_fields)
  next
    case ViewResultsClicked
    then show ?thesis by (simp add: handleViewResults_fields)
  qed
  then show "state (handle m ev) = state m" and "flights (handle m ev) = flights m"
    by simp_all
qed


lemma settled_iff_status:
  "run_inv k m \<Longrightarrow> settled (flights m ! k) = (finalStatus (state m) \<noteq> Defined None)"
  by (auto simp: run_inv_def split: option.splits if_splits)

subsection \<open>An invocation stays pending until its call settles\<close>

lemma outcome_Cons:
  "outcome k (ev # evs) =
     (case outcome k [ev] of None \<Rightarrow> outcome k evs | Some out \<Rightarrow> Some out)"
  by (cases ev) simp_all

lemma flight_kept:
  assumes "k < length (flights m)" and "\<not> settled (flights m ! k)"
    and "outcome k [ev] = None"
  shows "length (flights (handle m ev)) = length (flights m) \<and>
         \<not> settled (flights (handle m ev) ! k) \<and>
         call (flights (handle m ev) ! k) = call (flights m ! k)"
proof (cases ev)
  case (TimerFires i)
  show ?thesis
  proof (cases "i < length (flights m)")
    case False
    then show ?thesis using TimerFires assms by (simp add: fireTimeout_range)
  next
    case True
    show ?thesis
    proof (cases "timeouts (flights m ! i)")
      case Nil
      then show ?thesis using TimerFires True assms by (simp add: fireTimeout_Nil)
    next
      case (Cons t rest)
      obtain q d where "t = (q, d)" by (cases t)
      then show ?thesis using TimerFires True Cons assms
        by (cases "i = k") (simp_all add: fireTimeout_Cons)
    qed
  qed
next
  case (ApiResolves i r now)
  then have "i \<noteq> k" using assms(3) by (auto split: if_splits)
  then show ?thesis using ApiResolves assms by (simp add: settle_flights)
next
  case (ApiRejects i err)
  then have "i \<noteq> k" using assms(3) by (auto split: if_splits)
  then show ?thesis using ApiRejects assms by (simp add: settle_flights)
next
  case CancelClicked
  then show ?thesis using assms by (simp add: handleCancel_fields)
next
  case ViewResultsClicked
  then show ?thesis using assms by (simp add: handleViewResults_fields)
qed

lemma flight_kept_foldl:
  "k < length (flights m) \<Longrightarrow> \<not> settled (flights m ! k) \<Longrightarrow> outcome k evs = None \<Longrightarrow>
     k < length (flights (foldl handle m evs)) \<and>
     \<not> settled (flights (foldl handle m evs) ! k) \<and>
     call (flights (foldl handle m evs) ! k) = call (flights m ! k)"
proof (induction evs arbitrary: m)
  case Nil
  then show ?case by simp
next
  case (Cons ev evs)
  have none: "outcome k [ev] = None" and rest: "outcome k evs = None"
    using Cons.prems(3) by (simp_all add: outcome_Cons [of k ev evs] split: option.splits)
  note kept = flight_kept [OF Cons.prems(1) Cons.prems(2) none]
  have "k < length (flights (foldl handle (handle m ev) evs)) \<and>
        \<not> settled (flights (foldl handle (handle m ev) evs) ! k) \<and>
        call (flights (foldl handle (handle m ev) evs) ! k) = call (flights (handle m ev) ! k)"
    using kept Cons.prems(1) rest by (intro Cons.IH) simp_all
  then show ?case using kept by simp
qed

lemma handle_settles:
  "outcome k [ev] = Some out \<Longrightarrow> k < length (flights m) \<Longrightarrow> \<not> settled (flights m ! k) \<Longrightarrow>
     handle m ev = runPipeline_settle k out m"
  by (cases ev) (auto split: if_splits)

lemma settle_settled:
  "k < length (flights m) \<Longrightarrow> settled (flights (runPipeline_settle k out m) ! k)"
  by (simp add: settle_flights)

subsection \<open>The state of an undisturbed run follows from its outcome\<close>

lemma pending_fields:
  "run_inv k m \<Longrightarrow> \<not> settled (flights m ! k) \<Longrightarrow>
     finalStatus (state m) = Defined None \<and> validationErrors (state m) = Defined [] \<and>
     currentIteration (state m) = Defined 0 \<and> simulated (phase (state m)) (timeouts (flights m ! k))"
  by (auto simp: run_inv_def)

lemma settled_fields:
  "run_inv k m \<Longrightarrow> \<not> settled (flights m ! k) \<Longrightarrow>
     finalStatus (state (runPipeline_settle k out m)) =
       Defined (case out of Inl err \<Rightarrow> Some StatusFailed | Inr (r, now) \<Rightarrow> Some Success) \<and>
     validationErrors (state (runPipeline_settle k out m)) =
       Defined
         (case out of
            Inl err \<Rightarrow> []
          | Inr (r, now) \<Rightarrow>
              if validation_errors (report r) = [] then []
              else [\<lparr>iteration = fix_iterations (report r),
                     errors = validation_errors (report r), timestamp = now,
                     fixed = True\<rparr>]) \<and>
     currentIteration (state (runPipeline_settle k out m)) =
       Defined (case out of Inl err \<Rightarrow> 0 | Inr (r, now) \<Rightarrow> fix_iterations (report r)) \<and>
     phase (state (runPipeline_settle k out m)) =
       Defined (case out of Inl err \<Rightarrow> Failed | Inr (r, now) \<Rightarrow> Complete)"
  using pending_fields [of k m]
  by (simp add: settle_state reducer_success reducer_failed del: reducer.simps
      split: sum.splits prod.splits)


lemma open_pending:
  "\<not> hasStarted m0 \<Longrightarrow>
     length (flights m0) < length (flights (openModal p c m0)) \<and>
     \<not> settled (flights (openModal p c m0) ! length (flights m0)) \<and>
     call (flights (openModal p c m0) ! length (flights m0)) =
       \<lparr>req_prompt = p, req_format = ''csv'', content_base64 = c, max_fix_iters = 3\<rparr>"
  by (simp add: open_fields)

lemma idle_not_started: "idle m \<Longrightarrow> \<not> hasStarted m"
  by (simp add: idle_def)


subsection \<open>The phase under each event\<close>



subsection \<open>The final status of an undisturbed run is written once\<close>

lemma status_writes_settled:
  "run_inv k m \<Longrightarrow> settled (flights m ! k) \<Longrightarrow> status_writes m evs = 0"
proof (induction evs arbitrary: m)
  case Nil
  then show ?case by simp
next
  case (Cons ev evs)
  have "status_writes (handle m ev) evs = 0"
    using Cons.prems by (intro Cons.IH) (simp_all add: run_inv_handle settled_handle)
  then show ?case using Cons.prems by (simp add: settled_handle)
qed

lemma status_writes_pending:
  "run_inv k m \<Longrightarrow> \<not> settled (flights m ! k) \<Longrightarrow>
     status_writes m evs = (if outcome k evs = None then 0 else 1)"
proof (induction evs arbitrary: m)
  case Nil
  then show ?case by simp
next
  case (Cons ev evs)
  have len: "k < length (flights m)" using Cons.prems by (simp add: run_inv_def)
  show ?case
  proof (cases "outcome k [ev]")
    case None
    have inv': "run_inv k (handle m ev)" using Cons.prems by (simp add: run_inv_handle)
    have pend': "\<not> settled (flights (handle m ev) ! k)"
      using flight_kept [OF len Cons.prems(2) None] by simp
    have same: "finalStatus (state (handle m ev)) = finalStatus (state m)"
      using pending_fields [OF inv' pend'] pending_fields [OF Cons.prems] by simp
    have "outcome k (ev # evs) = outcome k evs"
      using None by (simp add: outcome_Cons [of k ev evs])
    then show ?thesis using Cons.IH [OF inv' pend'] same by simp
  next
    case (Some out)
    have h: "handle m ev = runPipeline_settle k out m"
      using Some len Cons.prems by (simp add: handle_settles)
    have "status_writes (runPipeline_settle k out m) evs = 0"
      by (rule status_writes_settled [OF run_inv_settle [OF Cons.prems] settle_settled [OF len]])
    then have rest: "status_writes (handle m ev) evs = 0" by (simp add: h)
    have changed: "finalStatus (state (handle m ev)) \<noteq> finalStatus (state m)"
      using settled_fields [OF Cons.prems, of out] pending_fields [OF Cons.prems] h
      by (simp split: sum.splits prod.splits)
    have "outcome k (ev # evs) = Some out"
      using Some by (simp add: outcome_Cons [of k ev evs])
    then show ?thesis using rest changed by simp
  qed
qed

text \<open>
  In a run that starts in an idle modal the final status is null at the start, changes
  exactly once if the call settles and not at all otherwise, and once it is set no event
  changes the builder state.
\<close>

lemma undisturbed_status_written_once:
  assumes "idle m0"
  shows
  "finalStatus (state (run m0 p c [])) = Defined None \<and>
   status_writes (run m0 p c []) evs =
     (if outcome (length (flights m0)) evs = None then 0 else 1) \<and>
   (finalStatus (state (run m0 p c evs)) \<noteq> Defined None \<longrightarrow>
      state (handle (run m0 p c evs) ev) = state (run m0 p c evs))"
proof -
  note inv0 = run_inv_open [OF assms, of p c]
  note pend0 = conjunct1 [OF conjunct2 [OF open_pending [OF idle_not_started [OF assms], of p c]]]
  have start: "finalStatus (state (run m0 p c [])) = Defined None"
    using pending_fields [OF inv0 pend0] by (simp add: run_Nil)
  have count: "status_writes (run m0 p c []) evs =
      (if outcome (length (flights m0)) evs = None then 0 else 1)"
    using status_writes_pending [OF inv0 pend0, of evs] by (simp add: run_Nil)
  have frozen: "state (handle (run m0 p c evs) ev) = state (run m0 p c evs)"
    if "finalStatus (state (run m0 p c evs)) \<noteq> Defined None"
  proof -
    note inv = run_inv_run [OF assms, of p c evs]
    have "settled (flights (run m0 p c evs) ! length (flights m0))"
      using that settled_iff_status [OF inv] by simp
    then show ?thesis by (rule settled_handle(1) [OF inv])
  qed
  show ?thesis using start count frozen by blast
qed

subsection \<open>Cancelling and later events\<close>

text \<open>
  Cancelling has no influence on what a later event does to the builder state: the
  signal of the controller is passed to nothing, and a pending call settles as it would
  have without the cancellation.
\<close>

lemma cancel_then_event:
  "state (handle (handleCancel m) ev) = state (handle m ev)"
  by (cases ev)
    (simp_all add: handleCancel_def abort_def fireTimeout_def dispatch_def settle_state
      handleViewResults_def render_isComplete_def split: list.splits option.splits)

subsection \<open>The reducer and the current specification\<close>

text \<open>
  An \<open>UPDATE\<close> that carries a specification makes it current and keeps the one that was
  current as the previous one. An \<open>UPDATE\<close> without the key \<open>currentSpec\<close> changes
  neither. An \<open>UPDATE\<close> that carries the key with the value \<open>undefined\<close> writes
  \<open>undefined\<close> over the current specification and leaves the previous one.
\<close>

lemma update_with_spec:
  "p_currentSpec payload = Some (Defined (Some sp)) \<Longrightarrow>
     previousSpec (reducer s (UPDATE payload)) = currentSpec s \<and>
     currentSpec (reducer s (UPDATE payload)) = Defined (Some sp)"
  by (simp add: spread_def read_key_def)

lemma update_without_key:
  "p_currentSpec payload = None \<Longrightarrow>
     previousSpec (reducer s (UPDATE payload)) = previousSpec s \<and>
     currentSpec (reducer s (UPDATE payload)) = currentSpec s"
  by (simp add: spread_def read_key_def)

lemma update_with_undefined:
  "p_currentSpec payload = Some Undefined \<Longrightarrow>
     previousSpec (reducer s (UPDATE payload)) = previousSpec s \<and>
     currentSpec (reducer s (UPDATE payload)) = Undefined"
  by (simp add: spread_def read_key_def)

subsection \<open>Evaluation on concrete runs\<close>

lemmas eval_defs =
  run_def idle_def quiet_def pendingCalls_def modal_defs getInitialState_def phases_def
  success_payload_def failed_payload_def no_keys_def spread_def read_key_def as_payload_def
  render_isComplete_def

lemma quiet_not_pending: "list_all quiet fs \<Longrightarrow> filter (\<lambda>f. \<not> settled f) fs = []"
  by (induction fs) (simp_all add: quiet_def)

subsection \<open>No event changes the maximum\<close>

lemma handle_maxIterations: "maxIterations (state (handle m ev)) = maxIterations (state m)"
  by (cases ev)
    (simp_all add: fireTimeout_def dispatch_def reducer_phase settle_state reducer_success
      reducer_failed handleCancel_def abort_def handleViewResults_def
      del: reducer.simps split: list.splits option.splits sum.splits)

lemma foldl_maxIterations:
  "maxIterations (state (foldl handle m evs)) = maxIterations (state m)"
  by (induction evs arbitrary: m) (simp_all add: handle_maxIterations)

lemma run_maxIterations: "maxIterations (state (run m0 p c evs)) = maxIterations (state m0)"
  by (simp add: run_def foldl_maxIterations openModal_def effect_run_def effect_reset_def
      runPipeline_start_def)

subsection \<open>Trimming\<close>

lemma trim_Nil_iff: "(trim s = []) = (\<forall>c \<in> set s. isWhiteSpace c)"
proof -
  have "(\<forall>c \<in> set (dropWhile isWhiteSpace s). isWhiteSpace c) = (\<forall>c \<in> set s. isWhiteSpace c)"
  proof
    assume all: "\<forall>c \<in> set (dropWhile isWhiteSpace s). isWhiteSpace c"
    have "set s = set (takeWhile isWhiteSpace s) \<union> set (dropWhile isWhiteSpace s)"
      by (metis set_append takeWhile_dropWhile_id)
    then show "\<forall>c \<in> set s. isWhiteSpace c"
      using all by (auto dest: set_takeWhileD)
  next
    assume "\<forall>c \<in> set s. isWhiteSpace c"
    then show "\<forall>c \<in> set (dropWhile isWhiteSpace s). isWhiteSpace c"
      by (auto dest: set_dropWhileD)
  qed
  then show ?thesis by (simp add: trim_def dropWhile_eq_Nil_conv)
qed

section \<open>The claims\<close>

subsection \<open>Final status, validation errors and iterations\<close>




subsection \<open>The final status is written once\<close>

text \<open>
  C2. The claim fails on a run that is started while the call of an earlier run is
  still pending. The first run is cancelled and the modal closed; nothing ends its call,
  since the signal of the controller is passed to nothing. The modal is opened again and
  a second run starts with the final status null. The call of the first run returns: the
  final status is \<open>success\<close> and the phase \<open>complete\<close>. A timer of the second run then
  moves the phase to \<open>generating\<close>, and the failing call of the second run writes the
  final status a second time, now \<open>failed\<close>.
\<close>

theorem C2_stale_call_writes_status:
  "finalStatus (state (run (closeModal [] []
        (run mounted [] [] [TimerFires 0, CancelClicked])) [] [] []
      :: (nat, string) Modal)) = Defined None \<and>
   finalStatus (state (run (closeModal [] []
        (run mounted [] [] [TimerFires 0, CancelClicked])) [] []
      [TimerFires 1,
       ApiResolves 0
         \<lparr>run_id = ''r1'', pipeline_id = ''p1'',
          report = \<lparr>pipeline_spec = Some (1::nat), fix_iterations = 0,
                    validation_errors = ([] :: string list)\<rparr>\<rparr>
         ''t0''])) = Defined (Some Success) \<and>
   phase (state (run (closeModal [] []
        (run mounted [] [] [TimerFires 0, CancelClicked])) [] []
      [TimerFires 1,
       ApiResolves 0
         \<lparr>run_id = ''r1'', pipeline_id = ''p1'',
          report = \<lparr>pipeline_spec = Some (1::nat), fix_iterations = 0,
                    validation_errors = ([] :: string list)\<rparr>\<rparr>
         ''t0''])) = Defined Complete \<and>
   phase (state (run (closeModal [] []
        (run mounted [] [] [TimerFires 0, CancelClicked])) [] []
      [TimerFires 1,
       ApiResolves 0
         \<lparr>run_id = ''r1'', pipeline_id = ''p1'',
          report = \<lparr>pipeline_spec = Some (1::nat), fix_iterations = 0,
                    validation_errors = ([] :: string list)\<rparr>\<rparr>
         ''t0'',
       TimerFires 1])) = Defined Generating \<and>
   finalStatus (state (run (closeModal [] []
        (run mounted [] [] [TimerFires 0, CancelClicked])) [] []
      [TimerFires 1,
       ApiResolves 0
         \<lparr>run_id = ''r1'', pipeline_id = ''p1'',
          report = \<lparr>pipeline_spec = Some (1::nat), fix_iterations = 0,
                    validation_errors = ([] :: string list)\<rparr>\<rparr>
         ''t0'',
       TimerFires 1,
       ApiRejects 1 (ErrorInstance ''Request failed'')])) = Defined (Some StatusFailed) \<and>
   status_writes (run (closeModal [] []
        (run mounted [] [] [TimerFires 0, CancelClicked])) [] [] [])
      [TimerFires 1,
       ApiResolves 0
         \<lparr>run_id = ''r1'', pipeline_id = ''p1'',
          report = \<lparr>pipeline_spec = Some (1::nat), fix_iterations = 0,
                    validation_errors = ([] :: string list)\<rparr>\<rparr>
         ''t0'',
       TimerFires 1,
       ApiRejects 1 (ErrorInstance ''Request failed'')] = 2"
  by (simp add: eval_defs)

subsection \<open>The phases of a run\<close>




subsection \<open>The previous specification\<close>

text \<open>
  C4. The claim fails on the update that the modal dispatches when it is closed. After a
  run that ended with the specification 1 the previous specification is null. The reset
  carries \<open>currentSpec: null\<close>, which is no specification, and yet the reducer sets the
  previous specification to 1: it tests the carried value against \<open>undefined\<close> only.
\<close>

theorem C4_reset_changes_previous_spec:
  "currentSpec (reducer (getInitialState ''pending'')
      (UPDATE (success_payload
         \<lparr>run_id = ''r1'', pipeline_id = ''p1'',
          report = \<lparr>pipeline_spec = Some (1::nat), fix_iterations = 0,
                    validation_errors = ([] :: string list)\<rparr>\<rparr>
         ''t0''))) = Defined (Some 1) \<and>
   previousSpec (reducer (getInitialState ''pending'')
      (UPDATE (success_payload
         \<lparr>run_id = ''r1'', pipeline_id = ''p1'',
          report = \<lparr>pipeline_spec = Some (1::nat), fix_iterations = 0,
                    validation_errors = ([] :: string list)\<rparr>\<rparr>
         ''t0''))) = Defined None \<and>
   p_currentSpec (as_payload (getInitialState ''pending'') :: (nat, string) Payload)
     = Some (Defined None) \<and>
   previousSpec (reducer
      (reducer (getInitialState ''pending'')
         (UPDATE (success_payload
            \<lparr>run_id = ''r1'', pipeline_id = ''p1'',
          report = \<lparr>pipeline_spec = Some (1::nat), fix_iterations = 0,
                    validation_errors = ([] :: string list)\<rparr>\<rparr>
            ''t0'')))
      (UPDATE (as_payload (getInitialState ''pending'')))) = Defined (Some 1) \<and>
   currentSpec (reducer
      (reducer (getInitialState ''pending'')
         (UPDATE (success_payload
            \<lparr>run_id = ''r1'', pipeline_id = ''p1'',
          report = \<lparr>pipeline_spec = Some (1::nat), fix_iterations = 0,
                    validation_errors = ([] :: string list)\<rparr>\<rparr>
            ''t0'')))
      (UPDATE (as_payload (getInitialState ''pending'')))) = Defined None"
  by (simp add: getInitialState_def success_payload_def as_payload_def no_keys_def
      spread_def read_key_def)

subsection \<open>The maximum number of iterations\<close>

text \<open>
  C5. The initial state has \<open>maxIterations = 3\<close>, and the call of a run is sent with
  \<open>max_fix_iters = 3\<close>. No event changes \<open>maxIterations\<close>, whatever the modal it is
  handled in, and neither does opening the modal, so \<open>maxIterations\<close> is throughout a
  run what it was before; it is 3 throughout every run that starts in an idle modal.
\<close>

theorem C5_maxIterations_fixed:
  "maxIterations (getInitialState rid :: ('s, 'e) State) = Defined 3 \<and>
   maxIterations (state (handle m ev)) = maxIterations (state m) \<and>
   maxIterations (state (run m0 p c evs)) = maxIterations (state m0) \<and>
   (idle m0 \<longrightarrow>
      map max_fix_iters (pendingCalls (run m0 p c [])) = [3] \<and>
      maxIterations (state (run m0 p c evs)) = Defined 3)"
proof -
  note step = handle_maxIterations [of m ev]
  note whole = run_maxIterations [of m0 p c evs]
  have runs:
    "map max_fix_iters (pendingCalls (run m0 p c [])) = [3] \<and>
     maxIterations (state (run m0 p c evs)) = Defined 3"
    if "idle m0"
  proof -
    have "list_all quiet (flights m0)" using that by (simp add: idle_def)
    then have "map max_fix_iters (pendingCalls (run m0 p c [])) = [3]"
      using idle_not_started [OF that]
      by (simp add: pendingCalls_def run_Nil open_fields quiet_not_pending)
    then show ?thesis using whole idle_state [OF that] by simp
  qed
  show ?thesis using step whole runs by (simp add: getInitialState_def)
qed

text \<open>A run in which every timer fires before the response arrives.\<close>

theorem C5_maxIterations_fixed_witness:
  "idle (mounted :: (nat, string) Modal) \<and>
   map max_fix_iters (pendingCalls (run mounted [] [] [] :: (nat, string) Modal)) = [3] \<and>
   maxIterations (state (run mounted [] []
      [TimerFires 0, TimerFires 0, TimerFires 0, TimerFires 0, TimerFires 0,
       ApiResolves 0
         \<lparr>run_id = ''r1'', pipeline_id = ''p1'',
          report = \<lparr>pipeline_spec = Some (1::nat), fix_iterations = 4,
                    validation_errors = [''column phone is missing'']\<rparr>\<rparr>
         ''t0''])) = Defined 3"
  using C5_maxIterations_fixed
    [of _ _ _ mounted "[]" "[]"
        "[TimerFires 0, TimerFires 0, TimerFires 0, TimerFires 0, TimerFires 0,
          ApiResolves 0
            \<lparr>run_id = ''r1'', pipeline_id = ''p1'',
          report = \<lparr>pipeline_spec = Some (1::nat), fix_iterations = 4,
                    validation_errors = [''column phone is missing'']\<rparr>\<rparr>
            ''t0'']"]
  by (simp add: eval_defs)

subsection \<open>Cancelling\<close>

text \<open>
  C6. The claim fails on a run that is cancelled while its call is pending.
  \<open>handleCancel\<close> calls \<open>abort\<close> on the controller, but the signal of the controller was
  never passed to \<open>createAndRunPipeline\<close>, and nothing is dispatched. A run cancelled in
  \<open>generating\<close> is still in \<open>generating\<close> with no final status, its call is still
  pending, and when the call returns the run ends as \<open>success\<close>.
\<close>

theorem C6_cancel_leaves_call_running:
  "phase (state (run mounted [] [] [TimerFires 0, TimerFires 0] :: (nat, string) Modal))
     = Defined Generating \<and>
   abortController (run mounted [] [] [TimerFires 0, TimerFires 0, CancelClicked]
      :: (nat, string) Modal) = Some True \<and>
   onCancelCalls (run mounted [] [] [TimerFires 0, TimerFires 0, CancelClicked]
      :: (nat, string) Modal) = 1 \<and>
   phase (state (run mounted [] [] [TimerFires 0, TimerFires 0, CancelClicked]
      :: (nat, string) Modal)) = Defined Generating \<and>
   finalStatus (state (run mounted [] [] [TimerFires 0, TimerFires 0, CancelClicked]
      :: (nat, string) Modal)) = Defined None \<and>
   \<not> render_isComplete (run mounted [] [] [TimerFires 0, TimerFires 0, CancelClicked]
      :: (nat, string) Modal) \<and>
   length (pendingCalls (run mounted [] [] [TimerFires 0, TimerFires 0, CancelClicked]
      :: (nat, string) Modal)) = 1 \<and>
   finalStatus (state (run mounted [] []
      [TimerFires 0, TimerFires 0, CancelClicked,
       ApiResolves 0
         \<lparr>run_id = ''r1'', pipeline_id = ''p1'',
          report = \<lparr>pipeline_spec = Some (1::nat), fix_iterations = 0,
                    validation_errors = ([] :: string list)\<rparr>\<rparr>
         ''t0''])) = Defined (Some Success) \<and>
   phase (state (run mounted [] []
      [TimerFires 0, TimerFires 0, CancelClicked,
       ApiResolves 0
         \<lparr>run_id = ''r1'', pipeline_id = ''p1'',
          report = \<lparr>pipeline_spec = Some (1::nat), fix_iterations = 0,
                    validation_errors = ([] :: string list)\<rparr>\<rparr>
         ''t0''])) = Defined Complete"
  by (simp add: eval_defs)

subsection \<open>A structured result, never an exception\<close>

text \<open>
  C7, as amended. Take any run, and let its call settle after any events, of this run or
  of an earlier one. Until then the call is pending, with the prompt, the CSV and
  \<open>max_fix_iters = 3\<close>. When the call fails, whatever it throws, the value is caught:
  the final status is \<open>failed\<close>, the phase \<open>failed\<close>, the state complete and the message
  recorded, and run id, iterations, specification and validation errors stay as they
  were. When the call returns a response, the final status is \<open>success\<close>, whatever the
  response reports, and the state carries its run id, specification, iterations and
  validation errors. In both cases the call is settled and the result is a modal: no
  exception leaves \<open>runPipeline\<close>.
\<close>

theorem C7_settled_call_is_structured:
  assumes "\<not> hasStarted m0" and "outcome (length (flights m0)) evs = None"
  shows
  "length (flights m0) < length (flights (run m0 p c evs)) \<and>
   \<not> settled (flights (run m0 p c evs) ! length (flights m0)) \<and>
   call (flights (run m0 p c evs) ! length (flights m0)) =
     \<lparr>req_prompt = p, req_format = ''csv'', content_base64 = c, max_fix_iters = 3\<rparr> \<and>
   state (handle (run m0 p c evs) (ApiRejects (length (flights m0)) err)) =
     (state (run m0 p c evs))
       \<lparr>phase := Defined Failed, isComplete := Defined True,
        finalStatus := Defined (Some StatusFailed)\<rparr> \<and>
   error (handle (run m0 p c evs) (ApiRejects (length (flights m0)) err)) =
     Some (case err of
             ErrorInstance msg \<Rightarrow> msg
           | OtherValue \<Rightarrow> ''Pipeline creation failed'') \<and>
   settled (flights (handle (run m0 p c evs) (ApiRejects (length (flights m0)) err))
      ! length (flights m0)) \<and>
   state (handle (run m0 p c evs) (ApiResolves (length (flights m0)) r now)) =
     (state (run m0 p c evs))
       \<lparr>runId := Defined (run_id r),
        currentSpec := Defined (pipeline_spec (report r)),
        currentIteration := Defined (fix_iterations (report r)),
        phase := Defined Complete,
        isComplete := Defined True,
        finalStatus := Defined (Some Success),
        validationErrors :=
          Defined
            (if validation_errors (report r) = [] then []
             else [\<lparr>iteration = fix_iterations (report r),
                    errors = validation_errors (report r), timestamp = now,
                    fixed = True\<rparr>]),
        previousSpec := currentSpec (state (run m0 p c evs))\<rparr> \<and>
   apiResponse (handle (run m0 p c evs) (ApiResolves (length (flights m0)) r now)) =
     Some r \<and>
   settled (flights (handle (run m0 p c evs) (ApiResolves (length (flights m0)) r now))
      ! length (flights m0))"
proof -
  let ?k = "length (flights m0)"
  let ?m = "run m0 p c evs"
  note op = open_pending [OF assms(1), of p c]
  have kept:
    "?k < length (flights ?m) \<and> \<not> settled (flights ?m ! ?k) \<and>
     call (flights ?m ! ?k) = call (flights (openModal p c m0) ! ?k)"
    unfolding run_def
    using op assms(2) by (intro flight_kept_foldl) simp_all
  then have pend: "?k < length (flights ?m)" "\<not> settled (flights ?m ! ?k)"
    and rq: "call (flights ?m ! ?k) =
      \<lparr>req_prompt = p, req_format = ''csv'', content_base64 = c, max_fix_iters = 3\<rparr>"
    using op by simp_all
  have rej: "handle ?m (ApiRejects ?k err) = runPipeline_settle ?k (Inl err) ?m"
    using pend by simp
  have res: "handle ?m (ApiResolves ?k r now) = runPipeline_settle ?k (Inr (r, now)) ?m"
    using pend by simp
  show ?thesis
    unfolding rej res
    using pend rq
    by (simp add: settle_state settle_error settle_apiResponse settle_flights
        reducer_success reducer_failed del: reducer.simps)
qed

text \<open>A run that is cancelled after its first timer and whose call then times out.\<close>

theorem C7_settled_call_is_structured_witness:
  "\<not> hasStarted (mounted :: (nat, string) Modal) \<and>
   outcome (length (flights (mounted :: (nat, string) Modal)))
     ([TimerFires 0, CancelClicked] :: (nat, string) Event list) = None \<and>
   finalStatus (state (handle (run mounted [] [] [TimerFires 0, CancelClicked])
      (ApiRejects 0 (ErrorInstance ''timeout'')) :: (nat, string) Modal))
     = Defined (Some StatusFailed) \<and>
   error (handle (run mounted [] [] [TimerFires 0, CancelClicked])
      (ApiRejects 0 (ErrorInstance ''timeout'')) :: (nat, string) Modal)
     = Some ''timeout''"
  using C7_settled_call_is_structured
    [of mounted "[TimerFires 0, CancelClicked]" "[]" "[]" "ErrorInstance ''timeout''"]
  by (simp add: eval_defs)

text \<open>
  As written, the claim has a bad specification or an exhausted number of iterations end
  as \<open>failed\<close>. A response that reports the three iterations that were asked for and
  still lists a validation error is shown as a success, with a specification and
  without one.
\<close>

theorem C7_exhausted_is_success_counterexample:
  "map max_fix_iters (pendingCalls (run mounted [] [] [] :: (nat, string) Modal)) = [3] \<and>
   finalStatus (state (run mounted [] []
      [TimerFires 0, TimerFires 0, TimerFires 0, TimerFires 0, TimerFires 0,
       ApiResolves 0
         \<lparr>run_id = ''r1'', pipeline_id = ''p1'',
          report = \<lparr>pipeline_spec = Some (1::nat), fix_iterations = 3,
                    validation_errors = [''column phone is missing'']\<rparr>\<rparr>
         ''t0''])) = Defined (Some Success) \<and>
   finalStatus (state (run mounted [] []
      [TimerFires 0, TimerFires 0, TimerFires 0, TimerFires 0, TimerFires 0,
       ApiResolves 0
         \<lparr>run_id = ''r1'', pipeline_id = ''p1'',
          report = \<lparr>pipeline_spec = (None :: nat option), fix_iterations = 3,
                    validation_errors = [''column phone is missing'']\<rparr>\<rparr>
         ''t0''])) = Defined (Some Success) \<and>
   currentSpec (state (run mounted [] []
      [TimerFires 0, TimerFires 0, TimerFires 0, TimerFires 0, TimerFires 0,
       ApiResolves 0
         \<lparr>run_id = ''r1'', pipeline_id = ''p1'',
          report = \<lparr>pipeline_spec = (None :: nat option), fix_iterations = 3,
                    validation_errors = [''column phone is missing'']\<rparr>\<rparr>
         ''t0''])) = Defined None"
  by (simp add: eval_defs)

subsection \<open>Submitting the form\<close>

text \<open>
  C9. When the parsed dataset is null, or the prompt is empty or consists of white space
  only, \<open>handleSubmit\<close> does not call \<open>onSubmit\<close>, and neither does a click on the
  button. When \<open>handleSubmit\<close> calls \<open>onSubmit\<close>, the prompt it passes is the trimmed
  prompt, which is not empty, together with the raw content and the parsed dataset.
\<close>

theorem C9_submit_validated:
  "(parsedData f = None \<or> (\<forall>c \<in> set (prompt f). isWhiteSpace c) \<longrightarrow>
      handleSubmit f = None \<and> buildButton_click f isSubmitting = None) \<and>
   (handleSubmit f = Some sub \<longrightarrow>
      submitted_prompt sub = trim (prompt f) \<and> submitted_prompt sub \<noteq> [] \<and>
      submitted_csvContent sub = rawContent f \<and>
      parsedData f = Some (submitted_parsedData sub))"
  by (auto simp: handleSubmit_def buildButton_click_def buildButton_disabled_def
      trim_Nil_iff split: option.splits if_splits)

text \<open>
  A prompt of a space, a tab and an ideographic space is not submitted; the prompt
  \<open>" h i\n"\<close> is submitted as \<open>"h i"\<close>.
\<close>

theorem C9_submit_validated_witness:
  "isWhiteSpace 0x20 \<and> isWhiteSpace 0x09 \<and> isWhiteSpace 0x3000 \<and>
   handleSubmit \<lparr>parsedData = Some (5::nat), rawContent = [0x61, 0x0A, 0x31],
                 prompt = [0x20, 0x09, 0x3000]\<rparr> = None \<and>
   handleSubmit \<lparr>parsedData = Some (5::nat), rawContent = [0x61, 0x0A, 0x31],
                 prompt = [0x20, 0x68, 0x20, 0x69, 0x0A]\<rparr> =
     Some \<lparr>submitted_prompt = [0x68, 0x20, 0x69], submitted_csvContent = [0x61, 0x0A, 0x31],
           submitted_parsedData = 5\<rparr> \<and>
   trim [0x20, 0x68, 0x20, 0x69, 0x0A] = [0x68, 0x20, 0x69]"
  using C9_submit_validated
    [of "\<lparr>parsedData = Some (5::nat), rawContent = [0x61, 0x0A, 0x31],
          prompt = [0x20, 0x09, 0x3000]\<rparr>" False]
    C9_submit_validated
    [of "\<lparr>parsedData = Some (5::nat), rawContent = [0x61, 0x0A, 0x31],
          prompt = [0x20, 0x68, 0x20, 0x69, 0x0A]\<rparr>" False
        "\<lparr>submitted_prompt = [0x68, 0x20, 0x69], submitted_csvContent = [0x61, 0x0A, 0x31],
          submitted_parsedData = 5\<rparr>"]
  by (simp add: handleSubmit_def trim_def isWhiteSpace_def)

subsection \<open>Closing the modal\<close>

text \<open>
  C10. Closing the modal is meant to reset the builder state to the initial state. The
  reset clears the response, the error and the mark that a run has started, and it resets
  every field of the builder state but one: the payload of the reset carries
  \<open>currentSpec: null\<close>, which is not \<open>undefined\<close>, so the reducer writes the old current
  specification over the \<open>previousSpec: null\<close> of the payload. After a run that ended
  with a specification, that specification is the previous one of the closed modal, and
  the state is not the initial state.
\<close>

theorem C10_close_keeps_spec_as_previous:
  "state (closeModal p c m) =
     (getInitialState ''pending'')\<lparr>previousSpec := currentSpec (state m)\<rparr> \<and>
   apiResponse (closeModal p c m) = None \<and> error (closeModal p c m) = None \<and>
   \<not> hasStarted (closeModal p c m) \<and>
   state (closeModal [] []
      (run mounted [] []
         [ApiResolves 0
            \<lparr>run_id = ''r1'', pipeline_id = ''p1'',
          report = \<lparr>pipeline_spec = Some (1::nat), fix_iterations = 0,
                    validation_errors = ([] :: string list)\<rparr>\<rparr>
            ''t0''])) =
     (getInitialState ''pending'')\<lparr>previousSpec := Defined (Some 1)\<rparr> \<and>
   state (closeModal [] []
      (run mounted [] []
         [ApiResolves 0
            \<lparr>run_id = ''r1'', pipeline_id = ''p1'',
          report = \<lparr>pipeline_spec = Some (1::nat), fix_iterations = 0,
                    validation_errors = ([] :: string list)\<rparr>\<rparr>
            ''t0''])) \<noteq> getInitialState ''pending''"
proof -
  have general:
    "state (closeModal p c m) =
       (getInitialState ''pending'')\<lparr>previousSpec := currentSpec (state m)\<rparr> \<and>
     apiResponse (closeModal p c m) = None \<and> error (closeModal p c m) = None \<and>
     \<not> hasStarted (closeModal p c m)"
    by (simp add: closeModal_def effect_run_def effect_reset_def abort_def dispatch_def
        reducer_reset del: reducer.simps)
  have concrete:
    "state (closeModal [] []
        (run mounted [] []
           [ApiResolves 0
              \<lparr>run_id = ''r1'', pipeline_id = ''p1'',
          report = \<lparr>pipeline_spec = Some (1::nat), fix_iterations = 0,
                    validation_errors = ([] :: string list)\<rparr>\<rparr>
              ''t0''])) =
       (getInitialState ''pending'')\<lparr>previousSpec := Defined (Some 1)\<rparr>"
    by (simp add: eval_defs)
  have differs:
    "(getInitialState ''pending'' :: (nat, string) State)\<lparr>previousSpec := Defined (Some 1)\<rparr>
       \<noteq> getInitialState ''pending''"
    by (simp add: getInitialState_def)
  show ?thesis using general concrete differs by simp
qed

end
